theory Spec2Isabelle
  imports Main "HOL-Library.Multiset"
begin

section \<open>The transactional applier (src/applier.py)\<close>

text \<open>
  A \<^typ>\<open>char\<close> is one character of the Python string, a code point below 256.
  \<open>str.strip()\<close> removes leading and trailing whitespace; among these code points the
  whitespace characters of Python are the codes 9 to 13, 28 to 32, 133 and 160.
\<close>

definition isspace :: "char \<Rightarrow> bool" where
  "isspace c =
     (let n = (of_char c :: nat)
      in (9 \<le> n \<and> n \<le> 13) \<or> (28 \<le> n \<and> n \<le> 32) \<or> n = 133 \<or> n = 160)"

definition strip :: "string \<Rightarrow> string" where
  "strip s = rev (dropWhile isspace (rev (dropWhile isspace s)))"

text \<open>
  An exception object as the applier sees it: the text \<open>str(e)\<close> that the f-string of
  line 26 interpolates, and the \<open>statement\<close> attribute of the object, which only some
  exception classes of the database library have.
\<close>

record exn =
  exn_str :: string
  exn_statement :: "string option"

text \<open>
  The connection is the external collaborator: \<open>execute\<close> runs one statement on the
  database state and either raises or yields the new state; \<open>transactional_ddl\<close>
  says whether a rollback undoes DDL on this database.
\<close>

record 'db connection =
  execute :: "'db \<Rightarrow> string \<Rightarrow> exn + 'db"
  transactional_ddl :: bool

datatype log_record = is_Info: Info string | Error string

datatype event = Begin | Execute string | Commit | Rollback

text \<open>
  What one call leaves behind: the database state, the records written to the logger and
  the calls made on the connection, both in order.
\<close>

record 'db session =
  db :: 'db
  log :: "log_record list"
  trace :: "event list"

text \<open>
  The loop of lines 18 to 27. A statement that is empty after \<open>strip()\<close> is passed over by
  \<open>continue\<close>. Any other statement is logged (its first 50 characters) and executed; when
  the execution raises, the error is logged with the whole statement and raised again,
  which leaves the loop.
\<close>

fun run_statements :: "'db connection \<Rightarrow> string list \<Rightarrow> 'db session \<Rightarrow> exn option \<times> 'db session" where
  "run_statements conn [] s = (None, s)"
| "run_statements conn (stmt # rest) s =
     (if strip stmt = [] then run_statements conn rest s
      else
        let s1 = s\<lparr>log := log s @ [Info (''Executing DDL: '' @ take 50 stmt @ ''...'')],
                    trace := trace s @ [Execute stmt]\<rparr>
        in case execute conn (db s1) stmt of
             Inr db' \<Rightarrow> run_statements conn rest (s1\<lparr>db := db'\<rparr>)
           | Inl e \<Rightarrow>
               (Some e,
                s1\<lparr>log := log s1 @
                  [Error (''Error executing DDL: '' @ stmt @ [CHR 0x0A] @ ''Error: '' @ exn_str e)]\<rparr>))"

text \<open>
  \<open>apply_ddl\<close>, lines 12 to 27. The block \<open>with conn.begin()\<close> commits when its body ends
  normally and rolls back when an exception leaves it; the exception then propagates to
  the caller. A rollback restores the state the call started from where the database has
  transactional DDL, and leaves what was applied otherwise.
\<close>

definition apply_ddl :: "'db connection \<Rightarrow> 'db \<Rightarrow> string list \<Rightarrow> (exn + unit) \<times> 'db session" where
  "apply_ddl conn db0 ddl_statements =
     (case run_statements conn ddl_statements \<lparr>db = db0, log = [], trace = [Begin]\<rparr> of
        (None, s) \<Rightarrow> (Inr (), s\<lparr>trace := trace s @ [Commit]\<rparr>)
      | (Some e, s) \<Rightarrow>
          (Inl e, s\<lparr>db := (if transactional_ddl conn then db0 else db s),
                     trace := trace s @ [Rollback]\<rparr>))"

section \<open>The DDL extractor (src/schema_replicator/extractor.py)\<close>

text \<open>
  The reflected \<open>Table\<close> object, as far as the extractor reads it. A column carries the
  eight attributes that lines 50 to 58 read, and its foreign keys. \<open>table.columns\<close> is an
  ordered collection. \<open>table.indexes\<close> and \<open>table.constraints\<close> are Python sets of
  objects: each is given by its elements, listed in the order in which reflection added
  them, which is the order of the catalog. Two objects of a set may have equal content.
  The order in which a loop receives the elements of a set is another matter: it is the
  runtime's, see \<open>iterate_set\<close> below.
\<close>

record column =
  col_name :: string
  col_type :: string
  nullable :: bool
  primary_key :: bool
  autoincrement :: string
  col_default :: "string option"
  server_default :: "string option"
  comment :: "string option"
  foreign_keys :: "string list"

record index =
  idx_name :: string
  idx_columns :: "string list"
  idx_unique :: bool

text \<open>
  The class of a constraint object. Line 100 tests for \<open>PrimaryKeyConstraint\<close> only;
  \<open>OtherConstraint\<close> stands for every class of constraint besides the four that line
  98 imports.
\<close>

datatype constraint_kind =
  PrimaryKeyConstraint | ForeignKeyConstraint | UniqueConstraint | CheckConstraint
  | OtherConstraint string

record constraint =
  con_kind :: constraint_kind
  con_name :: "string option"
  con_columns :: "string list"
  referred_table :: "string option"
  referred_columns :: "string list"
  sqltext :: "string option"

record table =
  tbl_name :: string
  columns :: "column list"
  indexes :: "index list"
  constraints :: "constraint list"

text \<open>
  The engine is the external collaborator. \<open>reflect\<close> reads a table from the catalog,
  into the \<open>Table\<close> object already registered under that name when there is one; it
  yields nothing when the catalog has no such table. The three compilers turn a
  \<open>CreateTable\<close>, a \<open>CreateIndex\<close> and an \<open>AddConstraint\<close> construct into text
  (the index and the constraint know their table), or fail.
\<close>

record engine =
  reflect :: "string \<Rightarrow> table option \<Rightarrow> table option"
  compile_create_table :: "table \<Rightarrow> string option"
  compile_create_index :: "table \<Rightarrow> index \<Rightarrow> string option"
  compile_add_constraint :: "table \<Rightarrow> constraint \<Rightarrow> string option"

text \<open>
  The failures of a call. \<open>NoSuchTableError\<close> and \<open>CompileError\<close> are raised by the
  library; \<open>UnsupportedConstraintKind\<close> is the error the specification names, which no
  statement of the source raises.
\<close>

datatype error = NoSuchTableError | CompileError | UnsupportedConstraintKind

text \<open>\<open>self.metadata\<close>: the registry of the \<open>Table\<close> objects made so far, by name.\<close>

type_synonym metadata = "string \<rightharpoonup> table"

text \<open>
  \<open>Table(table_name, self.metadata, autoload_with=self.engine, ...)\<close>, lines 19 and 73.
  A name not yet registered is reflected and registered. For a registered name the call
  returns the registered object: as it is without \<open>extend_existing\<close> (line 19), reflected
  again into it with \<open>extend_existing=True\<close> (line 73).
\<close>

definition Table_autoload :: "engine \<Rightarrow> metadata \<Rightarrow> string \<Rightarrow> bool \<Rightarrow> (error + table) \<times> metadata" where
  "Table_autoload eng md table_name extend_existing =
     (case md table_name of
        None \<Rightarrow>
          (case reflect eng table_name None of
             None \<Rightarrow> (Inl NoSuchTableError, md)
           | Some t \<Rightarrow> (Inr t, md(table_name \<mapsto> t)))
      | Some t0 \<Rightarrow>
          if extend_existing then
            (case reflect eng table_name (Some t0) of
               None \<Rightarrow> (Inl NoSuchTableError, md)
             | Some t \<Rightarrow> (Inr t, md(table_name \<mapsto> t)))
          else (Inr t0, md))"

text \<open>Lines 50 to 60: the new column takes eight attributes of the old one, and no foreign key.\<close>

definition new_col :: "column \<Rightarrow> column" where
  "new_col col =
     \<lparr>col_name = col_name col, col_type = col_type col, nullable = nullable col,
      primary_key = primary_key col, autoincrement = autoincrement col,
      col_default = col_default col, server_default = server_default col,
      comment = comment col, foreign_keys = []\<rparr>"

text \<open>
  Lines 31 to 62: a table of the same name in a fresh registry, given the new columns in
  the order of the old ones, and no index or table-level constraint.
\<close>

definition clean_table :: "string \<Rightarrow> table \<Rightarrow> table" where
  "clean_table table_name t =
     \<lparr>tbl_name = table_name, columns = map new_col (columns t), indexes = [], constraints = []\<rparr>"

definition get_table_base_ddl :: "engine \<Rightarrow> metadata \<Rightarrow> string \<Rightarrow> (error + string) \<times> metadata" where
  "get_table_base_ddl eng md table_name =
     (case Table_autoload eng md table_name False of
        (Inl err, md') \<Rightarrow> (Inl err, md')
      | (Inr t, md') \<Rightarrow>
          (case compile_create_table eng (clean_table table_name t) of
             None \<Rightarrow> (Inl CompileError, md')
           | Some ddl \<Rightarrow> (Inr (strip ddl @ '';''), md')))"

text \<open>
  Iterating a Python set. A set of objects keeps no order of its own: the order in which
  a loop receives the elements is the runtime's (it comes from the hashes of the objects,
  which for these objects are taken from their addresses) and can differ from one call
  to the next. The runtime is therefore a parameter of every call that iterates a set. It
  gives every object a rank; a loop receives the elements of a set by ascending rank, and
  objects of the same rank in the order in which they were added. Every order of the
  elements arises from some ranks, up to the order of objects of equal content.
\<close>

record runtime =
  index_rank :: "index \<Rightarrow> nat"
  constraint_rank :: "constraint \<Rightarrow> nat"

definition iterate_set :: "('a \<Rightarrow> nat) \<Rightarrow> 'a list \<Rightarrow> 'a list" where
  "iterate_set rank elements = sort_key rank elements"

text \<open>The loop of lines 77 to 80, with \<open>ddl_statements\<close> as accumulator.\<close>

fun index_loop :: "engine \<Rightarrow> table \<Rightarrow> index list \<Rightarrow> string list \<Rightarrow> error + string list" where
  "index_loop eng t [] ddl_statements = Inr ddl_statements"
| "index_loop eng t (index # rest) ddl_statements =
     (case compile_create_index eng t index of
        None \<Rightarrow> Inl CompileError
      | Some stmt \<Rightarrow> index_loop eng t rest (ddl_statements @ [stmt @ '';'']))"

text \<open>The loop of lines 95 to 106: a primary-key constraint is passed over, every other one is compiled.\<close>

fun constraint_loop :: "engine \<Rightarrow> table \<Rightarrow> constraint list \<Rightarrow> string list \<Rightarrow> error + string list" where
  "constraint_loop eng t [] ddl_statements = Inr ddl_statements"
| "constraint_loop eng t (const # rest) ddl_statements =
     (if con_kind const = PrimaryKeyConstraint then constraint_loop eng t rest ddl_statements
      else
        case compile_add_constraint eng t const of
          None \<Rightarrow> Inl CompileError
        | Some stmt \<Rightarrow> constraint_loop eng t rest (ddl_statements @ [stmt @ '';'']))"

definition get_constraints_and_indexes_ddl ::
    "engine \<Rightarrow> runtime \<Rightarrow> metadata \<Rightarrow> string \<Rightarrow> (error + string list) \<times> metadata" where
  "get_constraints_and_indexes_ddl eng rt md table_name =
     (case Table_autoload eng md table_name True of
        (Inl err, md') \<Rightarrow> (Inl err, md')
      | (Inr t, md') \<Rightarrow>
          (case index_loop eng t (iterate_set (index_rank rt) (indexes t)) [] of
             Inl err \<Rightarrow> (Inl err, md')
           | Inr ddl_statements \<Rightarrow>
               (case constraint_loop eng t (iterate_set (constraint_rank rt) (constraints t))
                       ddl_statements of
                  Inl err \<Rightarrow> (Inl err, md')
                | Inr ddl_statements' \<Rightarrow> (Inr ddl_statements', md'))))"

section \<open>Notions the statements below use\<close>

text \<open>The entries of a statement list that the loop of \<open>apply_ddl\<close> does not pass over.\<close>

definition nonblank :: "string list \<Rightarrow> string list" where
  "nonblank stmts = filter (\<lambda>stmt. strip stmt \<noteq> []) stmts"

text \<open>The two log records of lines 22 and 26.\<close>

definition info_record :: "string \<Rightarrow> log_record" where
  "info_record stmt = Info (''Executing DDL: '' @ take 50 stmt @ ''...'')"

definition error_record :: "string \<Rightarrow> exn \<Rightarrow> log_record" where
  "error_record stmt e =
     Error (''Error executing DDL: '' @ stmt @ [CHR 0x0A] @ ''Error: '' @ exn_str e)"

text \<open>The statements handed to \<open>conn.execute\<close>, read off a trace.\<close>

fun executed :: "event list \<Rightarrow> string list" where
  "executed [] = []"
| "executed (Execute stmt # evs) = stmt # executed evs"
| "executed (_ # evs) = executed evs"

text \<open>
  Executing the non-blank statements of a list one after the other on a database state:
  the state reached when all of them succeed, the first error otherwise.
\<close>

fun execute_all :: "'db connection \<Rightarrow> 'db \<Rightarrow> string list \<Rightarrow> exn + 'db" where
  "execute_all conn d [] = Inr d"
| "execute_all conn d (stmt # rest) =
     (if strip stmt = [] then execute_all conn d rest
      else case execute conn d stmt of Inl e \<Rightarrow> Inl e | Inr d' \<Rightarrow> execute_all conn d' rest)"

text \<open>
  Example connections, on a database state that lists the statements applied so far.
  \<open>orders_conn\<close> stands for a database without the table \<open>customers\<close>: a statement
  that begins with \<open>ALTER\<close> fails there. \<open>closed_conn\<close> is a connection that was closed:
  every execution raises an error of the library that has no \<open>statement\<close> attribute.
\<close>

definition orders_conn :: "string list connection" where
  "orders_conn =
     \<lparr>execute = (\<lambda>d stmt.
        if take 5 stmt = ''ALTER''
        then Inl \<lparr>exn_str = ''no such table: customers'', exn_statement = Some stmt\<rparr>
        else Inr (d @ [stmt])),
      transactional_ddl = True\<rparr>"

definition closed_conn :: "string list connection" where
  "closed_conn =
     \<lparr>execute = (\<lambda>d stmt. Inl \<lparr>exn_str = ''This Connection is closed'', exn_statement = None\<rparr>),
      transactional_ddl = True\<rparr>"

text \<open>
  The statement of one index (lines 79 and 80) and of one constraint (lines 105 and
  106): the compiled text and the terminator, when the compiler succeeds.
\<close>

definition index_statement :: "engine \<Rightarrow> table \<Rightarrow> index \<Rightarrow> string option" where
  "index_statement eng t index = map_option (\<lambda>stmt. stmt @ '';'') (compile_create_index eng t index)"

definition constraint_statement :: "engine \<Rightarrow> table \<Rightarrow> constraint \<Rightarrow> string option" where
  "constraint_statement eng t const =
     map_option (\<lambda>stmt. stmt @ '';'') (compile_add_constraint eng t const)"

text \<open>
  The sequences the two loops of \<open>get_constraints_and_indexes_ddl\<close> work on: the indexes
  as the set yields them, and the constraints as the set yields them without the
  primary-key constraints, which line 101 passes over.
\<close>

definition index_sequence :: "runtime \<Rightarrow> table \<Rightarrow> index list" where
  "index_sequence rt t = iterate_set (index_rank rt) (indexes t)"

definition constraint_sequence :: "runtime \<Rightarrow> table \<Rightarrow> constraint list" where
  "constraint_sequence rt t = iterate_set (constraint_rank rt) (constraints t)"

definition deferred_constraints :: "runtime \<Rightarrow> table \<Rightarrow> constraint list" where
  "deferred_constraints rt t =
     filter (\<lambda>const. con_kind const \<noteq> PrimaryKeyConstraint) (constraint_sequence rt t)"


text \<open>
  Example tables. \<open>orders_table\<close> is the table of the specification's scenario,
  \<open>customers_table\<close> has a primary key and nothing else, and \<open>bookings_table\<close> has an
  exclusion constraint, a constraint class of one dialect that is none of the four.
\<close>

definition plain_column :: "string \<Rightarrow> string \<Rightarrow> column" where
  "plain_column n ty =
     \<lparr>col_name = n, col_type = ty, nullable = True, primary_key = False,
      autoincrement = ''auto'', col_default = None, server_default = None, comment = None,
      foreign_keys = []\<rparr>"

definition plain_constraint :: "constraint_kind \<Rightarrow> string list \<Rightarrow> constraint" where
  "plain_constraint k cols =
     \<lparr>con_kind = k, con_name = None, con_columns = cols, referred_table = None,
      referred_columns = [], sqltext = None\<rparr>"

definition orders_table :: table where
  "orders_table =
     \<lparr>tbl_name = ''orders'',
      columns =
        [(plain_column ''id'' ''INTEGER'')\<lparr>nullable := False, primary_key := True\<rparr>,
         (plain_column ''customer_id'' ''INTEGER'')\<lparr>foreign_keys := [''customers.id'']\<rparr>,
         (plain_column ''total'' ''NUMERIC'')\<lparr>nullable := False, server_default := Some ''0''\<rparr>],
      indexes = [\<lparr>idx_name = ''ix_orders_customer_id'', idx_columns = [''customer_id''], idx_unique = False\<rparr>],
      constraints =
        [plain_constraint PrimaryKeyConstraint [''id''],
         (plain_constraint ForeignKeyConstraint [''customer_id''])
           \<lparr>referred_table := Some ''customers'', referred_columns := [''id'']\<rparr>,
         plain_constraint UniqueConstraint [''id'']]\<rparr>"

definition customers_table :: table where
  "customers_table =
     \<lparr>tbl_name = ''customers'',
      columns =
        [(plain_column ''id'' ''INTEGER'')\<lparr>nullable := False, primary_key := True\<rparr>,
         plain_column ''name'' ''VARCHAR''],
      indexes = [],
      constraints = [plain_constraint PrimaryKeyConstraint [''id'']]\<rparr>"

definition bookings_table :: table where
  "bookings_table =
     \<lparr>tbl_name = ''bookings'',
      columns = [plain_column ''room'' ''INTEGER'', plain_column ''during'' ''TSRANGE''],
      indexes = [],
      constraints = [plain_constraint (OtherConstraint ''EXCLUDE'') [''room'', ''during'']]\<rparr>"

text \<open>\<open>sep.join(xs)\<close> of Python, for the example compilers.\<close>

fun join :: "string \<Rightarrow> string list \<Rightarrow> string" where
  "join sep [] = []"
| "join sep [x] = x"
| "join sep (x # y # ys) = x @ sep @ join sep (y # ys)"

text \<open>
  An example engine. Its catalog has the three tables. A table that is not registered is
  reflected as the catalog has it. Reflection into a registered table does what the
  library does: the columns are replaced and with them the foreign-key constraints, the
  primary key is loaded again into the constraint that is there, and the indexes and the
  other constraints of the catalog are added to the sets, which keep the objects they
  had. The compilers write the statements in a simple form.
\<close>

definition demo_catalog :: "string \<Rightarrow> table option" where
  "demo_catalog table_name =
     (if table_name = ''orders'' then Some orders_table
      else if table_name = ''customers'' then Some customers_table
      else if table_name = ''bookings'' then Some bookings_table
      else None)"

definition reflect_into :: "table option \<Rightarrow> table \<Rightarrow> table" where
  "reflect_into existing fresh =
     (case existing of
        None \<Rightarrow> fresh
      | Some t0 \<Rightarrow>
          fresh\<lparr>indexes := indexes t0 @ indexes fresh,
                constraints :=
                  filter (\<lambda>const. con_kind const \<noteq> PrimaryKeyConstraint \<and>
                                   con_kind const \<noteq> ForeignKeyConstraint) (constraints t0) @
                  constraints fresh\<rparr>)"

definition demo_constraint_text :: "constraint \<Rightarrow> string" where
  "demo_constraint_text const =
     (case con_kind const of
        PrimaryKeyConstraint \<Rightarrow> ''PRIMARY KEY''
      | ForeignKeyConstraint \<Rightarrow> ''FOREIGN KEY''
      | UniqueConstraint \<Rightarrow> ''UNIQUE''
      | CheckConstraint \<Rightarrow> ''CHECK''
      | OtherConstraint k \<Rightarrow> k) @ '' ('' @ join '', '' (con_columns const) @ '')'' @
     (case referred_table const of
        None \<Rightarrow> []
      | Some r \<Rightarrow> '' REFERENCES '' @ r @ '' ('' @ join '', '' (referred_columns const) @ '')'')"

definition demo_engine :: engine where
  "demo_engine =
     \<lparr>reflect = (\<lambda>table_name existing. map_option (reflect_into existing) (demo_catalog table_name)),
      compile_create_table = (\<lambda>t.
        Some ([CHR 0x0A] @ ''CREATE TABLE '' @ tbl_name t @ '' ('' @
              join '', '' (map (\<lambda>col. col_name col @ '' '' @ col_type col @
                (if primary_key col then '' PRIMARY KEY'' else [])) (columns t)) @
              '')'' @ [CHR 0x0A, CHR 0x0A])),
      compile_create_index = (\<lambda>t index.
        Some (''CREATE INDEX '' @ idx_name index @ '' ON '' @ tbl_name t @ '' ('' @
              join '', '' (idx_columns index) @ '')'')),
      compile_add_constraint = (\<lambda>t const.
        Some (''ALTER TABLE '' @ tbl_name t @ '' ADD '' @ demo_constraint_text const))\<rparr>"

text \<open>
  Two runtimes. With \<open>catalog_runtime\<close> a set yields its objects in the order in which
  they were added; with \<open>other_runtime\<close> the unique constraints come first.
\<close>

definition catalog_runtime :: runtime where
  "catalog_runtime = \<lparr>index_rank = (\<lambda>index. 0), constraint_rank = (\<lambda>const. 0)\<rparr>"

definition other_runtime :: runtime where
  "other_runtime =
     \<lparr>index_rank = (\<lambda>index. 0),
      constraint_rank = (\<lambda>const. if con_kind const = UniqueConstraint then 0 else 1)\<rparr>"

section \<open>Lemmas about the applier\<close>

lemma dropWhile_all_iff:
  "(\<forall>x \<in> set (dropWhile P xs). P x) \<longleftrightarrow> (\<forall>x \<in> set xs. P x)"
proof
  assume a: "\<forall>x \<in> set (dropWhile P xs). P x"
  have "dropWhile P xs = []"
  proof (rule ccontr)
    assume ne: "dropWhile P xs \<noteq> []"
    then have "\<not> P (hd (dropWhile P xs))" by (rule hd_dropWhile)
    moreover from ne have "hd (dropWhile P xs) \<in> set (dropWhile P xs)" by simp
    ultimately show False using a by blast
  qed
  then show "\<forall>x \<in> set xs. P x" by (simp add: dropWhile_eq_Nil_conv)
next
  assume "\<forall>x \<in> set xs. P x"
  then show "\<forall>x \<in> set (dropWhile P xs). P x" by (meson set_dropWhileD)
qed

lemma strip_Nil_iff: "strip s = [] \<longleftrightarrow> (\<forall>c \<in> set s. isspace c)"
  by (simp add: strip_def dropWhile_all_iff)

lemma run_statements_nonblank:
  "run_statements conn (nonblank stmts) s = run_statements conn stmts s"
  by (induction stmts arbitrary: s) (auto simp: nonblank_def Let_def split: sum.splits)

lemma run_statements_append:
  "run_statements conn (xs @ ys) s =
     (case run_statements conn xs s of
        (None, s') \<Rightarrow> run_statements conn ys s'
      | (Some e, s') \<Rightarrow> (Some e, s'))"
  by (induction xs arbitrary: s) (auto simp: Let_def split: sum.splits)

lemma run_statements_succeed:
  "execute_all conn (db s) xs = Inr d \<Longrightarrow>
   run_statements conn xs s =
     (None, s\<lparr>db := d, log := log s @ map info_record (nonblank xs),
               trace := trace s @ map Execute (nonblank xs)\<rparr>)"
  by (induction xs arbitrary: s) (auto simp: Let_def nonblank_def info_record_def split: sum.splits if_splits)

lemma executed_append: "executed (xs @ ys) = executed xs @ executed ys"
  by (induction xs rule: executed.induct) auto

lemma executed_map_Execute: "executed (map Execute xs) = xs"
  by (induction xs) auto

lemma run_statements_invariant:
  "run_statements conn xs s = (r, s') \<Longrightarrow>
   filter is_Info (log s) = map info_record (executed (trace s)) \<Longrightarrow>
   \<forall>stmt \<in> set (executed (trace s)). strip stmt \<noteq> [] \<Longrightarrow>
   filter is_Info (log s') = map info_record (executed (trace s')) \<and>
   (\<forall>stmt \<in> set (executed (trace s')). strip stmt \<noteq> [])"
proof (induction xs arbitrary: s)
  case Nil
  then show ?case by simp
next
  case (Cons x xs)
  show ?case
  proof (cases "strip x = []")
    case True
    with Cons show ?thesis by simp
  next
    case False
    let ?s1 = "s\<lparr>log := log s @ [Info (''Executing DDL: '' @ take 50 x @ ''...'')],
                    trace := trace s @ [Execute x]\<rparr>"
    have inv1: "filter is_Info (log ?s1) = map info_record (executed (trace ?s1))"
      using Cons.prems(2) by (simp add: executed_append info_record_def)
    have inv2: "\<forall>stmt \<in> set (executed (trace ?s1)). strip stmt \<noteq> []"
      using Cons.prems(3) False by (simp add: executed_append)
    show ?thesis
    proof (cases "execute conn (db s) x")
      case (Inl e)
      with False Cons.prems(1) have "s' = ?s1\<lparr>log := log ?s1 @ [Error (''Error executing DDL: '' @ x @ [CHR 0x0A] @ ''Error: '' @ exn_str e)]\<rparr>"
        by (simp add: Let_def)
      with inv1 inv2 show ?thesis by simp
    next
      case (Inr d)
      with False Cons.prems(1) have "run_statements conn xs (?s1\<lparr>db := d\<rparr>) = (r, s')"
        by (simp add: Let_def)
      from Cons.IH[OF this] inv1 inv2 show ?thesis by simp
    qed
  qed
qed

lemma run_statements_fail:
  "run_statements conn xs s = (Some e, s') \<Longrightarrow>
   \<exists>k d. k < length xs \<and> strip (xs ! k) \<noteq> [] \<and>
     execute_all conn (db s) (take k xs) = Inr d \<and>
     execute conn d (xs ! k) = Inl e \<and>
     s' = s\<lparr>db := d,
             log := log s @ map info_record (nonblank (take (Suc k) xs)) @ [error_record (xs ! k) e],
             trace := trace s @ map Execute (nonblank (take (Suc k) xs))\<rparr>"
proof (induction xs arbitrary: s)
  case Nil
  then show ?case by simp
next
  case (Cons x xs)
  show ?case
  proof (cases "strip x = []")
    case True
    with Cons.prems have "run_statements conn xs s = (Some e, s')" by simp
    from Cons.IH[OF this] obtain k d where
      "k < length xs" "strip (xs ! k) \<noteq> []" "execute_all conn (db s) (take k xs) = Inr d"
      "execute conn d (xs ! k) = Inl e"
      "s' = s\<lparr>db := d,
             log := log s @ map info_record (nonblank (take (Suc k) xs)) @ [error_record (xs ! k) e],
             trace := trace s @ map Execute (nonblank (take (Suc k) xs))\<rparr>"
      by blast
    with True have "Suc k < length (x # xs) \<and> strip ((x # xs) ! Suc k) \<noteq> [] \<and>
      execute_all conn (db s) (take (Suc k) (x # xs)) = Inr d \<and>
      execute conn d ((x # xs) ! Suc k) = Inl e \<and>
      s' = s\<lparr>db := d,
             log := log s @ map info_record (nonblank (take (Suc (Suc k)) (x # xs))) @ [error_record ((x # xs) ! Suc k) e],
             trace := trace s @ map Execute (nonblank (take (Suc (Suc k)) (x # xs)))\<rparr>"
      by (simp add: nonblank_def)
    then show ?thesis by blast
  next
    case False
    show ?thesis
    proof (cases "execute conn (db s) x")
      case (Inl e')
      with False Cons.prems have "0 < length (x # xs) \<and> strip ((x # xs) ! 0) \<noteq> [] \<and>
        execute_all conn (db s) (take 0 (x # xs)) = Inr (db s) \<and>
        execute conn (db s) ((x # xs) ! 0) = Inl e \<and>
        s' = s\<lparr>db := db s,
             log := log s @ map info_record (nonblank (take (Suc 0) (x # xs))) @ [error_record ((x # xs) ! 0) e],
             trace := trace s @ map Execute (nonblank (take (Suc 0) (x # xs)))\<rparr>"
        by (auto simp: Let_def nonblank_def info_record_def error_record_def)
      then show ?thesis by blast
    next
      case (Inr d0)
      let ?s1 = "s\<lparr>log := log s @ [Info (''Executing DDL: '' @ take 50 x @ ''...'')],
                    trace := trace s @ [Execute x], db := d0\<rparr>"
      from Inr False Cons.prems have "run_statements conn xs ?s1 = (Some e, s')"
        by (simp add: Let_def)
      from Cons.IH[OF this] obtain k d where
        "k < length xs" "strip (xs ! k) \<noteq> []" "execute_all conn (db ?s1) (take k xs) = Inr d"
        "execute conn d (xs ! k) = Inl e"
        "s' = ?s1\<lparr>db := d,
             log := log ?s1 @ map info_record (nonblank (take (Suc k) xs)) @ [error_record (xs ! k) e],
             trace := trace ?s1 @ map Execute (nonblank (take (Suc k) xs))\<rparr>"
        by blast
      with False Inr have "Suc k < length (x # xs) \<and> strip ((x # xs) ! Suc k) \<noteq> [] \<and>
        execute_all conn (db s) (take (Suc k) (x # xs)) = Inr d \<and>
        execute conn d ((x # xs) ! Suc k) = Inl e \<and>
        s' = s\<lparr>db := d,
             log := log s @ map info_record (nonblank (take (Suc (Suc k)) (x # xs))) @ [error_record ((x # xs) ! Suc k) e],
             trace := trace s @ map Execute (nonblank (take (Suc (Suc k)) (x # xs)))\<rparr>"
        by (simp add: nonblank_def info_record_def)
      then show ?thesis by blast
    qed
  qed
qed

section \<open>Lemmas about the extractor\<close>

lemma index_loop_those:
  "index_loop eng t is acc =
     (case those (map (index_statement eng t) is) of
        None \<Rightarrow> Inl CompileError
      | Some ss \<Rightarrow> Inr (acc @ ss))"
  by (induction "is" arbitrary: acc) (auto simp: index_statement_def split: option.splits)

lemma constraint_loop_those:
  "constraint_loop eng t cs acc =
     (case those (map (constraint_statement eng t)
                    (filter (\<lambda>const. con_kind const \<noteq> PrimaryKeyConstraint) cs)) of
        None \<Rightarrow> Inl CompileError
      | Some ss \<Rightarrow> Inr (acc @ ss))"
  by (induction cs arbitrary: acc) (auto simp: constraint_statement_def split: option.splits)

lemma those_eq_Some_iff: "those xs = Some ys \<longleftrightarrow> xs = map Some ys"
  by (induction xs arbitrary: ys) (auto split: option.splits)


lemma those_append:
  "those (xs @ ys) =
     (case those xs of
        None \<Rightarrow> None
      | Some a \<Rightarrow> (case those ys of None \<Rightarrow> None | Some b \<Rightarrow> Some (a @ b)))"
  by (induction xs) (auto split: option.splits)

lemma phase2_result:
  assumes "Table_autoload eng md n True = (Inr t, md')"
  shows "fst (get_constraints_and_indexes_ddl eng rt md n) =
           (case those (map (index_statement eng t) (index_sequence rt t) @
                        map (constraint_statement eng t) (deferred_constraints rt t)) of
              None \<Rightarrow> Inl CompileError
            | Some ss \<Rightarrow> Inr ss)"
  using assms
  by (simp add: get_constraints_and_indexes_ddl_def index_loop_those constraint_loop_those
        those_append deferred_constraints_def index_sequence_def constraint_sequence_def
        split: option.splits)

lemma phase2_Inr_iff:
  assumes "Table_autoload eng md n True = (Inr t, md')"
  shows "fst (get_constraints_and_indexes_ddl eng rt md n) = Inr stmts \<longleftrightarrow>
           map Some stmts = map (index_statement eng t) (index_sequence rt t) @
                            map (constraint_statement eng t) (deferred_constraints rt t)"
proof -
  let ?xs = "map (index_statement eng t) (index_sequence rt t) @
             map (constraint_statement eng t) (deferred_constraints rt t)"
  show ?thesis
  proof (cases "those ?xs")
    case None
    then have "?xs \<noteq> map Some stmts" using those_eq_Some_iff[of ?xs stmts] by simp
    with None show ?thesis by (auto simp: phase2_result[OF assms])
  next
    case (Some ss)
    then have "?xs = map Some ss" by (simp add: those_eq_Some_iff)
    with Some show ?thesis
      by (auto simp: phase2_result[OF assms] inj_map_eq_map[OF inj_Some])
  qed
qed

lemma phase2_error:
  "fst (get_constraints_and_indexes_ddl eng rt md n) = Inl err \<Longrightarrow>
   err = NoSuchTableError \<or> err = CompileError"
  by (auto simp: get_constraints_and_indexes_ddl_def Table_autoload_def index_loop_those
        constraint_loop_those split: option.splits if_splits sum.splits prod.splits)


lemma mset_index_sequence: "mset (index_sequence rt t) = mset (indexes t)"
  by (simp add: index_sequence_def iterate_set_def)

lemma mset_constraint_sequence: "mset (constraint_sequence rt t) = mset (constraints t)"
  by (simp add: constraint_sequence_def iterate_set_def)



lemma base_result:
  assumes "Table_autoload eng md n False = (Inr t, md')"
  shows "fst (get_table_base_ddl eng md n) =
           (case compile_create_table eng (clean_table n t) of
              None \<Rightarrow> Inl CompileError
            | Some ddl \<Rightarrow> Inr (strip ddl @ '';''))"
  using assms by (simp add: get_table_base_ddl_def split: option.splits)

lemma filter_nth_position:
  assumes "a < length xs" "P (xs ! a)"
  shows "filter P xs ! length (filter P (take a xs)) = xs ! a"
proof -
  have "xs = take a xs @ xs ! a # drop (Suc a) xs"
    using assms(1) by (simp add: id_take_nth_drop)
  then have "filter P xs = filter P (take a xs) @ xs ! a # filter P (drop (Suc a) xs)"
    using assms(2) by (metis filter.simps(2) filter_append)
  then show ?thesis by (simp add: nth_append)
qed

lemma filter_take_length_less:
  assumes "a < length xs" "P (xs ! a)"
  shows "length (filter P (take a xs)) < length (filter P xs)"
proof -
  have "xs = take a xs @ xs ! a # drop (Suc a) xs"
    using assms(1) by (simp add: id_take_nth_drop)
  then have "filter P xs = filter P (take a xs) @ xs ! a # filter P (drop (Suc a) xs)"
    using assms(2) by (metis filter.simps(2) filter_append)
  then show ?thesis by simp
qed

lemma new_col_update: "new_col col = col\<lparr>foreign_keys := []\<rparr>"
  by (cases col) (simp add: new_col_def)




lemma map_Some_the:
  "\<forall>x \<in> set xs. f x \<noteq> None \<Longrightarrow> map f xs = map Some (map (\<lambda>x. the (f x)) xs)"
  by (induction xs) auto






lemmas demo_defs = demo_engine_def demo_catalog_def reflect_into_def orders_table_def
  customers_table_def bookings_table_def plain_constraint_def plain_column_def
  demo_constraint_text_def

lemmas iterate_defs = iterate_set_def catalog_runtime_def other_runtime_def

section \<open>The claims\<close>

text \<open>
  Claim C1. The code breaks the claim when both methods are called on one extractor,
  as they are meant to be. The first call registers the table in \<open>self.metadata\<close>; the
  second call, with \<open>extend_existing=True\<close> on line 73, reflects again into the
  registered object, whose sets then hold the index and the unique constraint twice. For the table \<open>orders\<close> with
  one index, a primary key, a foreign key and a unique constraint, the base statement has
  the three columns, and the second phase has five statements: the index and the unique
  constraint are each emitted twice.
\<close>

theorem phase2_after_base_ddl_emits_twice:
  "map idx_name (indexes orders_table) = [''ix_orders_customer_id''] \<and>
   map con_kind (constraints orders_table) =
     [PrimaryKeyConstraint, ForeignKeyConstraint, UniqueConstraint] \<and>
   fst (get_table_base_ddl demo_engine Map.empty ''orders'') =
     Inr ''CREATE TABLE orders (id INTEGER PRIMARY KEY, customer_id INTEGER, total NUMERIC);'' \<and>
   fst (get_constraints_and_indexes_ddl demo_engine catalog_runtime
          (snd (get_table_base_ddl demo_engine Map.empty ''orders'')) ''orders'') =
     Inr [''CREATE INDEX ix_orders_customer_id ON orders (customer_id);'',
          ''CREATE INDEX ix_orders_customer_id ON orders (customer_id);'',
          ''ALTER TABLE orders ADD UNIQUE (id);'',
          ''ALTER TABLE orders ADD FOREIGN KEY (customer_id) REFERENCES customers (id);'',
          ''ALTER TABLE orders ADD UNIQUE (id);'']"
  by (simp add: get_table_base_ddl_def get_constraints_and_indexes_ddl_def Table_autoload_def
        clean_table_def new_col_def strip_def isspace_def demo_defs iterate_defs)

text \<open>
  Claim C2, as amended. \<open>get_constraints_and_indexes_ddl\<close> never fails with
  \<open>UnsupportedConstraintKind\<close>, whatever the kinds of the constraints: when the
  compiler renders every index and every constraint that is not a primary-key constraint,
  of the four kinds or of any other, the call returns one statement for each of them.
  The claim as stated fails: the exclusion constraint of \<open>bookings_table\<close> is compiled
  and emitted, as the closed theorem after the witness shows.
\<close>

theorem no_unsupported_constraint_kind_error:
  "fst (get_constraints_and_indexes_ddl eng rt md n) \<noteq> Inl UnsupportedConstraintKind \<and>
   (\<forall>t md'. Table_autoload eng md n True = (Inr t, md') \<longrightarrow>
      (\<forall>index \<in> set (indexes t). compile_create_index eng t index \<noteq> None) \<longrightarrow>
      (\<forall>const \<in> set (deferred_constraints rt t). compile_add_constraint eng t const \<noteq> None) \<longrightarrow>
      (\<exists>stmts. fst (get_constraints_and_indexes_ddl eng rt md n) = Inr stmts \<and>
         map Some stmts = map (index_statement eng t) (index_sequence rt t) @
                          map (constraint_statement eng t) (deferred_constraints rt t)))"
proof -
  have a: "fst (get_constraints_and_indexes_ddl eng rt md n) \<noteq> Inl UnsupportedConstraintKind"
    using phase2_error[of eng rt md n UnsupportedConstraintKind] by auto
  have b: "\<exists>stmts. fst (get_constraints_and_indexes_ddl eng rt md n) = Inr stmts \<and>
         map Some stmts = map (index_statement eng t) (index_sequence rt t) @
                          map (constraint_statement eng t) (deferred_constraints rt t)"
    if tab: "Table_autoload eng md n True = (Inr t, md')"
      and ix: "\<forall>index \<in> set (indexes t). compile_create_index eng t index \<noteq> None"
      and co: "\<forall>const \<in> set (deferred_constraints rt t). compile_add_constraint eng t const \<noteq> None"
    for t md'
  proof -
    from ix have "\<forall>index \<in> set (index_sequence rt t). index_statement eng t index \<noteq> None"
      by (simp add: index_statement_def index_sequence_def iterate_set_def)
    then have 1: "map (index_statement eng t) (index_sequence rt t) =
        map Some (map (\<lambda>x. the (index_statement eng t x)) (index_sequence rt t))"
      by (rule map_Some_the)
    from co have "\<forall>const \<in> set (deferred_constraints rt t). constraint_statement eng t const \<noteq> None"
      by (simp add: constraint_statement_def)
    then have 2: "map (constraint_statement eng t) (deferred_constraints rt t) =
        map Some (map (\<lambda>x. the (constraint_statement eng t x)) (deferred_constraints rt t))"
      by (rule map_Some_the)
    let ?stmts = "map (\<lambda>x. the (index_statement eng t x)) (index_sequence rt t) @
                  map (\<lambda>x. the (constraint_statement eng t x)) (deferred_constraints rt t)"
    have 3: "map Some ?stmts = map (index_statement eng t) (index_sequence rt t) @
                          map (constraint_statement eng t) (deferred_constraints rt t)"
      using 1 2 by simp
    then have "fst (get_constraints_and_indexes_ddl eng rt md n) = Inr ?stmts"
      by (simp only: phase2_Inr_iff[OF tab])
    with 3 show ?thesis by blast
  qed
  from a b show ?thesis by blast
qed

theorem no_unsupported_constraint_kind_error_witness:
  "fst (get_constraints_and_indexes_ddl demo_engine catalog_runtime Map.empty ''bookings'') \<noteq>
     Inl UnsupportedConstraintKind \<and>
   (\<exists>stmts. fst (get_constraints_and_indexes_ddl demo_engine catalog_runtime Map.empty ''bookings'') =
        Inr stmts \<and>
      map Some stmts = [Some ''ALTER TABLE bookings ADD EXCLUDE (room, during);''])"
  using no_unsupported_constraint_kind_error [of demo_engine catalog_runtime Map.empty "''bookings''"]
  by (simp add: Table_autoload_def demo_defs iterate_defs index_statement_def
        constraint_statement_def deferred_constraints_def index_sequence_def
        constraint_sequence_def)

theorem unsupported_kind_is_compiled:
  "map con_kind (constraints bookings_table) = [OtherConstraint ''EXCLUDE''] \<and>
   fst (get_constraints_and_indexes_ddl demo_engine catalog_runtime Map.empty ''bookings'') =
     Inr [''ALTER TABLE bookings ADD EXCLUDE (room, during);'']"
  by (simp add: get_constraints_and_indexes_ddl_def Table_autoload_def demo_defs iterate_defs)

text \<open>
  Claim C3, as amended. The statements of the second phase are in the order in which
  the two loops receive the elements of the sets, and the code reorders nothing: the
  sequences received are the elements of \<open>table.indexes\<close> and of \<open>table.constraints\<close>,
  each once; the statement at position \<open>i\<close> is that of the \<open>i\<close>-th index received;
  the statement of the \<open>a\<close>-th constraint received, when it is not a primary-key
  constraint, stands after the indexes at the position that counts the constraints received
  before it that are not primary-key constraints. The claim as stated fails: this order is
  the runtime's and need not be the catalog's, as the closed theorem after the witness
  shows, where the unique constraint is emitted before the foreign key that the catalog
  lists first.
\<close>

theorem phase2_follows_set_iteration:
  assumes tab: "Table_autoload eng md n True = (Inr t, md')"
    and res: "fst (get_constraints_and_indexes_ddl eng rt md n) = Inr stmts"
  shows "mset (index_sequence rt t) = mset (indexes t) \<and>
         mset (constraint_sequence rt t) = mset (constraints t) \<and>
         length stmts = length (index_sequence rt t) + length (deferred_constraints rt t) \<and>
         (\<forall>i < length (index_sequence rt t).
            Some (stmts ! i) = index_statement eng t (index_sequence rt t ! i)) \<and>
         (\<forall>a < length (constraint_sequence rt t).
            con_kind (constraint_sequence rt t ! a) \<noteq> PrimaryKeyConstraint \<longrightarrow>
            length (filter (\<lambda>const. con_kind const \<noteq> PrimaryKeyConstraint)
                      (take a (constraint_sequence rt t)))
              < length (deferred_constraints rt t) \<and>
            Some (stmts ! (length (index_sequence rt t) +
                    length (filter (\<lambda>const. con_kind const \<noteq> PrimaryKeyConstraint)
                              (take a (constraint_sequence rt t))))) =
              constraint_statement eng t (constraint_sequence rt t ! a))"
proof -
  let ?P = "\<lambda>const. con_kind const \<noteq> PrimaryKeyConstraint"
  let ?ixs = "index_sequence rt t"
  let ?cs = "constraint_sequence rt t"
  from res have eq: "map Some stmts = map (index_statement eng t) ?ixs @
        map (constraint_statement eng t) (deferred_constraints rt t)"
    by (simp add: phase2_Inr_iff[OF tab])
  then have "length (map Some stmts) = length (map (index_statement eng t) ?ixs @
        map (constraint_statement eng t) (deferred_constraints rt t))"
    by simp
  then have len: "length stmts = length ?ixs + length (deferred_constraints rt t)" by simp
  have nth: "Some (stmts ! p) = (map (index_statement eng t) ?ixs @
        map (constraint_statement eng t) (deferred_constraints rt t)) ! p" if "p < length stmts" for p
    using that eq by (metis nth_map)
  have idx: "Some (stmts ! i) = index_statement eng t (?ixs ! i)" if "i < length ?ixs" for i
    using that nth[of i] len by (simp add: nth_append)
  have con: "length (filter ?P (take a ?cs)) < length (deferred_constraints rt t) \<and>
            Some (stmts ! (length ?ixs + length (filter ?P (take a ?cs)))) =
              constraint_statement eng t (?cs ! a)"
    if a: "a < length ?cs" and k: "con_kind (?cs ! a) \<noteq> PrimaryKeyConstraint" for a
  proof -
    let ?j = "length (filter ?P (take a ?cs))"
    have j: "?j < length (filter ?P ?cs)"
      using a k by (rule filter_take_length_less[where P = ?P])
    have pos: "filter ?P ?cs ! ?j = ?cs ! a"
      using a k by (rule filter_nth_position[where P = ?P])
    have "Some (stmts ! (length ?ixs + ?j)) =
          constraint_statement eng t (filter ?P ?cs ! ?j)"
      using nth[of "length ?ixs + ?j"] len j
      by (simp add: nth_append deferred_constraints_def)
    with j pos show ?thesis by (simp add: deferred_constraints_def)
  qed
  from len idx con mset_index_sequence[of rt t] mset_constraint_sequence[of rt t]
  show ?thesis by blast
qed

theorem phase2_follows_set_iteration_witness:
  "fst (get_constraints_and_indexes_ddl demo_engine other_runtime Map.empty ''orders'') =
     Inr [''CREATE INDEX ix_orders_customer_id ON orders (customer_id);'',
          ''ALTER TABLE orders ADD UNIQUE (id);'',
          ''ALTER TABLE orders ADD FOREIGN KEY (customer_id) REFERENCES customers (id);''] \<and>
   map con_kind (constraint_sequence other_runtime orders_table) =
     [UniqueConstraint, PrimaryKeyConstraint, ForeignKeyConstraint] \<and>
   Some ([''CREATE INDEX ix_orders_customer_id ON orders (customer_id);'',
          ''ALTER TABLE orders ADD UNIQUE (id);'',
          ''ALTER TABLE orders ADD FOREIGN KEY (customer_id) REFERENCES customers (id);''] ! 2) =
     constraint_statement demo_engine orders_table (constraint_sequence other_runtime orders_table ! 2)"
proof -
  let ?stmts = "[''CREATE INDEX ix_orders_customer_id ON orders (customer_id);'',
          ''ALTER TABLE orders ADD UNIQUE (id);'',
          ''ALTER TABLE orders ADD FOREIGN KEY (customer_id) REFERENCES customers (id);'']"
  let ?cs = "constraint_sequence other_runtime orders_table"
  have tab: "Table_autoload demo_engine Map.empty ''orders'' True =
                (Inr orders_table, [''orders'' \<mapsto> orders_table])"
    by (simp add: Table_autoload_def demo_engine_def demo_catalog_def reflect_into_def)
  have res: "fst (get_constraints_and_indexes_ddl demo_engine other_runtime Map.empty ''orders'') = Inr ?stmts"
    by (simp add: get_constraints_and_indexes_ddl_def Table_autoload_def demo_defs iterate_defs)
  have kinds: "map con_kind ?cs = [UniqueConstraint, PrimaryKeyConstraint, ForeignKeyConstraint]"
    by (simp add: constraint_sequence_def orders_table_def plain_constraint_def iterate_defs)
  have a: "(2::nat) < length ?cs"
    by (simp add: constraint_sequence_def orders_table_def iterate_defs)
  have k: "con_kind (?cs ! 2) \<noteq> PrimaryKeyConstraint"
    by (simp add: constraint_sequence_def orders_table_def plain_constraint_def iterate_defs)
  have pos: "length (index_sequence other_runtime orders_table) +
        length (filter (\<lambda>const. con_kind const \<noteq> PrimaryKeyConstraint) (take 2 ?cs)) = 2"
    by (simp add: index_sequence_def constraint_sequence_def orders_table_def
          plain_constraint_def iterate_defs)
  from phase2_follows_set_iteration [OF tab res] a k
  have "Some (?stmts ! (length (index_sequence other_runtime orders_table) +
          length (filter (\<lambda>const. con_kind const \<noteq> PrimaryKeyConstraint) (take 2 ?cs)))) =
        constraint_statement demo_engine orders_table (?cs ! 2)"
    by blast
  with res kinds pos show ?thesis by simp
qed

theorem phase2_order_is_not_catalog_order:
  "map con_kind (constraints orders_table) =
     [PrimaryKeyConstraint, ForeignKeyConstraint, UniqueConstraint] \<and>
   fst (get_constraints_and_indexes_ddl demo_engine other_runtime Map.empty ''orders'') =
     Inr [''CREATE INDEX ix_orders_customer_id ON orders (customer_id);'',
          ''ALTER TABLE orders ADD UNIQUE (id);'',
          ''ALTER TABLE orders ADD FOREIGN KEY (customer_id) REFERENCES customers (id);'']"
  by (simp add: get_constraints_and_indexes_ddl_def Table_autoload_def demo_defs iterate_defs)




text \<open>
  Claim C5. When statement \<open>k\<close> fails with \<open>e\<close> after the statements before it have
  succeeded, \<open>apply_ddl\<close> raises \<open>e\<close>; it has executed the non-blank statements
  before \<open>k\<close> and statement \<open>k\<close> and no statement after it; the last record of the
  log is the error record with the text of statement \<open>k\<close>; the transaction is rolled
  back, which restores the database the call started from where DDL is transactional.
\<close>

theorem apply_ddl_stops_at_first_failure:
  assumes k: "k < length stmts"
    and nb: "strip (stmts ! k) \<noteq> []"
    and before: "execute_all conn db0 (take k stmts) = Inr dk"
    and fails: "execute conn dk (stmts ! k) = Inl e"
  shows "apply_ddl conn db0 stmts =
           (Inl e,
            \<lparr>db = (if transactional_ddl conn then db0 else dk),
             log = map info_record (nonblank (take k stmts)) @
                   [info_record (stmts ! k), error_record (stmts ! k) e],
             trace = [Begin] @ map Execute (nonblank (take k stmts)) @
                     [Execute (stmts ! k), Rollback]\<rparr>)"
proof -
  let ?s0 = "\<lparr>db = db0, log = [], trace = [Begin]\<rparr>"
  let ?s1 = "?s0\<lparr>db := dk, log := log ?s0 @ map info_record (nonblank (take k stmts)),
               trace := trace ?s0 @ map Execute (nonblank (take k stmts))\<rparr>"
  have split: "stmts = take k stmts @ (stmts ! k # drop (Suc k) stmts)"
    using k by (simp add: id_take_nth_drop)
  have pre: "run_statements conn (take k stmts) ?s0 = (None, ?s1)"
    using before by (intro run_statements_succeed) simp
  have "run_statements conn stmts ?s0 =
          run_statements conn (stmts ! k # drop (Suc k) stmts) ?s1"
    by (subst split, subst run_statements_append) (simp only: pre prod.case option.case)
  also have "\<dots> = (Some e, ?s1\<lparr>log := log ?s1 @ [info_record (stmts ! k), error_record (stmts ! k) e],
                                trace := trace ?s1 @ [Execute (stmts ! k)]\<rparr>)"
    using nb fails by (simp add: Let_def info_record_def error_record_def)
  finally show ?thesis by (simp add: apply_ddl_def)
qed

theorem apply_ddl_stops_at_first_failure_witness:
  "apply_ddl orders_conn []
     [''CREATE TABLE orders (id INTEGER);'', ''  '',
      ''ALTER TABLE orders ADD FOREIGN KEY(customer_id) REFERENCES customers (id);'',
      ''CREATE INDEX ix ON orders (customer_id);''] =
   (Inl \<lparr>exn_str = ''no such table: customers'',
          exn_statement = Some ''ALTER TABLE orders ADD FOREIGN KEY(customer_id) REFERENCES customers (id);''\<rparr>,
    \<lparr>db = [],
     log = [Info ''Executing DDL: CREATE TABLE orders (id INTEGER);...'',
            Info ''Executing DDL: ALTER TABLE orders ADD FOREIGN KEY(customer_id) RE...'',
            Error (''Error executing DDL: ALTER TABLE orders ADD FOREIGN KEY(customer_id) REFERENCES customers (id);'' @
                   [CHR 0x0A] @ ''Error: no such table: customers'')],
     trace = [Begin, Execute ''CREATE TABLE orders (id INTEGER);'',
              Execute ''ALTER TABLE orders ADD FOREIGN KEY(customer_id) REFERENCES customers (id);'',
              Rollback]\<rparr>)"
  using apply_ddl_stops_at_first_failure [of 2
     "[''CREATE TABLE orders (id INTEGER);'', ''  '',
      ''ALTER TABLE orders ADD FOREIGN KEY(customer_id) REFERENCES customers (id);'',
      ''CREATE INDEX ix ON orders (customer_id);'']" orders_conn "[]"
      "[''CREATE TABLE orders (id INTEGER);'']"
      "\<lparr>exn_str = ''no such table: customers'',
          exn_statement = Some ''ALTER TABLE orders ADD FOREIGN KEY(customer_id) REFERENCES customers (id);''\<rparr>"]
  by (simp add: orders_conn_def strip_def isspace_def nonblank_def info_record_def error_record_def)

text \<open>
  Claim C6. The base statement is the compiled clean table. The clean table has one
  column for every column of the table, in order, with the same name, type, nullability,
  primary-key flag, autoincrement attribute, default, server default and comment, and
  without foreign keys; it has no index and no table-level constraint. So the base
  statement is the same for every table with these columns, whatever the foreign keys of
  its columns, its constraints and its indexes.
\<close>

theorem base_ddl_keeps_columns_without_foreign_keys:
  assumes tab: "Table_autoload eng md n False = (Inr t, md')"
  shows "fst (get_table_base_ddl eng md n) =
           (case compile_create_table eng (clean_table n t) of
              None \<Rightarrow> Inl CompileError
            | Some ddl \<Rightarrow> Inr (strip ddl @ '';'')) \<and>
         length (columns (clean_table n t)) = length (columns t) \<and>
         (\<forall>i < length (columns t).
            col_name (columns (clean_table n t) ! i) = col_name (columns t ! i) \<and>
            col_type (columns (clean_table n t) ! i) = col_type (columns t ! i) \<and>
            nullable (columns (clean_table n t) ! i) = nullable (columns t ! i) \<and>
            primary_key (columns (clean_table n t) ! i) = primary_key (columns t ! i) \<and>
            autoincrement (columns (clean_table n t) ! i) = autoincrement (columns t ! i) \<and>
            col_default (columns (clean_table n t) ! i) = col_default (columns t ! i) \<and>
            server_default (columns (clean_table n t) ! i) = server_default (columns t ! i) \<and>
            comment (columns (clean_table n t) ! i) = comment (columns t ! i) \<and>
            foreign_keys (columns (clean_table n t) ! i) = []) \<and>
         indexes (clean_table n t) = [] \<and> constraints (clean_table n t) = [] \<and>
         (\<forall>eng2 md2 t2 md2'.
            Table_autoload eng2 md2 n False = (Inr t2, md2') \<longrightarrow>
            compile_create_table eng2 = compile_create_table eng \<longrightarrow>
            map (\<lambda>col. col\<lparr>foreign_keys := []\<rparr>) (columns t2) =
              map (\<lambda>col. col\<lparr>foreign_keys := []\<rparr>) (columns t) \<longrightarrow>
            fst (get_table_base_ddl eng2 md2 n) = fst (get_table_base_ddl eng md n))"
proof -
  have attrs: "\<forall>i < length (columns t).
            col_name (columns (clean_table n t) ! i) = col_name (columns t ! i) \<and>
            col_type (columns (clean_table n t) ! i) = col_type (columns t ! i) \<and>
            nullable (columns (clean_table n t) ! i) = nullable (columns t ! i) \<and>
            primary_key (columns (clean_table n t) ! i) = primary_key (columns t ! i) \<and>
            autoincrement (columns (clean_table n t) ! i) = autoincrement (columns t ! i) \<and>
            col_default (columns (clean_table n t) ! i) = col_default (columns t ! i) \<and>
            server_default (columns (clean_table n t) ! i) = server_default (columns t ! i) \<and>
            comment (columns (clean_table n t) ! i) = comment (columns t ! i) \<and>
            foreign_keys (columns (clean_table n t) ! i) = []"
    by (simp add: clean_table_def new_col_def)
  have rest: "length (columns (clean_table n t)) = length (columns t) \<and>
      indexes (clean_table n t) = [] \<and> constraints (clean_table n t) = []"
    by (simp add: clean_table_def)
  have same: "fst (get_table_base_ddl eng2 md2 n) = fst (get_table_base_ddl eng md n)"
    if t2: "Table_autoload eng2 md2 n False = (Inr t2, md2')"
      and comp: "compile_create_table eng2 = compile_create_table eng"
      and cols: "map (\<lambda>col. col\<lparr>foreign_keys := []\<rparr>) (columns t2) =
              map (\<lambda>col. col\<lparr>foreign_keys := []\<rparr>) (columns t)"
    for eng2 md2 t2 md2'
  proof -
    have "new_col = (\<lambda>col. col\<lparr>foreign_keys := []\<rparr>)"
      by (intro ext) (rule new_col_update)
    with cols have "map new_col (columns t2) = map new_col (columns t)"
      by simp
    then have "clean_table n t2 = clean_table n t" by (simp add: clean_table_def)
    then show ?thesis by (simp add: base_result[OF t2] base_result[OF tab] comp)
  qed
  from base_result[OF tab] attrs rest same show ?thesis by blast
qed

theorem base_ddl_keeps_columns_without_foreign_keys_witness:
  "fst (get_table_base_ddl demo_engine Map.empty ''orders'') =
     Inr ''CREATE TABLE orders (id INTEGER PRIMARY KEY, customer_id INTEGER, total NUMERIC);'' \<and>
   foreign_keys (columns orders_table ! 1) = [''customers.id''] \<and>
   foreign_keys (columns (clean_table ''orders'' orders_table) ! 1) = [] \<and>
   server_default (columns (clean_table ''orders'' orders_table) ! 2) = Some ''0''"
proof -
  have tab: "Table_autoload demo_engine Map.empty ''orders'' False =
                (Inr orders_table, [''orders'' \<mapsto> orders_table])"
    by (simp add: Table_autoload_def demo_engine_def demo_catalog_def reflect_into_def)
  have len: "length (columns orders_table) = 3"
    by (simp add: orders_table_def)
  have fk: "foreign_keys (columns orders_table ! 1) = [''customers.id'']"
    by (simp add: orders_table_def plain_column_def)
  have sd: "server_default (columns orders_table ! 2) = Some ''0''"
    by (simp add: orders_table_def plain_column_def)
  have ddl: "(case compile_create_table demo_engine (clean_table ''orders'' orders_table) of
              None \<Rightarrow> Inl CompileError
            | Some ddl \<Rightarrow> Inr (strip ddl @ '';'')) =
          Inr ''CREATE TABLE orders (id INTEGER PRIMARY KEY, customer_id INTEGER, total NUMERIC);''"
    by (simp add: demo_defs clean_table_def new_col_def strip_def isspace_def)
  from base_ddl_keeps_columns_without_foreign_keys [OF tab] len fk sd ddl show ?thesis
    by simp
qed

text \<open>
  Claim C7, as amended. The error that \<open>apply_ddl\<close> raises is the very error that
  the execution of a statement raised, unchanged: there is a non-blank statement of the
  list, reached after the statements before it succeeded, whose execution raised it. The
  text of that statement and of the error is in the last record of the log. The claim as
  stated fails: the error of a closed connection reaches the caller without the
  statement, which only the log has, as the closed theorem after the witness shows.
\<close>

theorem apply_ddl_propagates_error_unchanged:
  assumes "fst (apply_ddl conn db0 stmts) = Inl e"
  shows "\<exists>k d. k < length stmts \<and> strip (stmts ! k) \<noteq> [] \<and>
           execute_all conn db0 (take k stmts) = Inr d \<and>
           execute conn d (stmts ! k) = Inl e \<and>
           last (log (snd (apply_ddl conn db0 stmts))) = error_record (stmts ! k) e"
proof -
  let ?s0 = "\<lparr>db = db0, log = [], trace = [Begin]\<rparr>"
  obtain r s' where run: "run_statements conn stmts ?s0 = (r, s')"
    by (cases "run_statements conn stmts ?s0")
  with assms have r: "r = Some e" by (cases r) (simp_all add: apply_ddl_def)
  from run_statements_fail[OF run[unfolded r]] obtain k d where
    kd: "k < length stmts" "strip (stmts ! k) \<noteq> []"
      "execute_all conn (db ?s0) (take k stmts) = Inr d" "execute conn d (stmts ! k) = Inl e"
    and s': "s' = ?s0\<lparr>db := d,
             log := log ?s0 @ map info_record (nonblank (take (Suc k) stmts)) @ [error_record (stmts ! k) e],
             trace := trace ?s0 @ map Execute (nonblank (take (Suc k) stmts))\<rparr>"
    by blast
  have "last (log (snd (apply_ddl conn db0 stmts))) = error_record (stmts ! k) e"
    using run r s' by (simp add: apply_ddl_def)
  with kd show ?thesis by auto
qed

theorem apply_ddl_propagates_error_unchanged_witness:
  "fst (apply_ddl closed_conn [] [''CREATE INDEX ix ON orders (customer_id);'']) =
     Inl \<lparr>exn_str = ''This Connection is closed'', exn_statement = None\<rparr> \<and>
   last (log (snd (apply_ddl closed_conn [] [''CREATE INDEX ix ON orders (customer_id);'']))) =
     error_record ''CREATE INDEX ix ON orders (customer_id);''
       \<lparr>exn_str = ''This Connection is closed'', exn_statement = None\<rparr>"
proof -
  have h: "fst (apply_ddl closed_conn [] [''CREATE INDEX ix ON orders (customer_id);'']) =
     Inl \<lparr>exn_str = ''This Connection is closed'', exn_statement = None\<rparr>"
    by (simp add: apply_ddl_def closed_conn_def strip_def isspace_def)
  from apply_ddl_propagates_error_unchanged [OF h] h show ?thesis
    by auto
qed

theorem apply_ddl_error_not_annotated:
  "apply_ddl closed_conn [] [''CREATE INDEX ix ON orders (customer_id);''] =
     (Inl \<lparr>exn_str = ''This Connection is closed'', exn_statement = None\<rparr>,
      \<lparr>db = [],
       log = [Info ''Executing DDL: CREATE INDEX ix ON orders (customer_id);...'',
              Error (''Error executing DDL: CREATE INDEX ix ON orders (customer_id);'' @ [CHR 0x0A] @
                     ''Error: This Connection is closed'')],
       trace = [Begin, Execute ''CREATE INDEX ix ON orders (customer_id);'', Rollback]\<rparr>)"
  by (simp add: apply_ddl_def closed_conn_def strip_def isspace_def)



text \<open>
  Claim C9. Blank entries change nothing: \<open>apply_ddl\<close> returns the same result, the
  same database, the same log and the same trace as on the list without them. No executed
  statement is blank, the information records of the log are those of the executed
  statements, one each and in order, and when all non-blank statements succeed the call
  returns normally having executed exactly them.
\<close>

theorem apply_ddl_skips_blank:
  "apply_ddl conn db0 stmts = apply_ddl conn db0 (nonblank stmts) \<and>
   (\<forall>stmt \<in> set (executed (trace (snd (apply_ddl conn db0 stmts)))). strip stmt \<noteq> []) \<and>
   filter is_Info (log (snd (apply_ddl conn db0 stmts))) =
     map info_record (executed (trace (snd (apply_ddl conn db0 stmts)))) \<and>
   (\<forall>d. execute_all conn db0 stmts = Inr d \<longrightarrow>
      fst (apply_ddl conn db0 stmts) = Inr () \<and>
      db (snd (apply_ddl conn db0 stmts)) = d \<and>
      executed (trace (snd (apply_ddl conn db0 stmts))) = nonblank stmts)"
proof -
  let ?s0 = "\<lparr>db = db0, log = [], trace = [Begin]\<rparr>"
  obtain r s' where run: "run_statements conn stmts ?s0 = (r, s')"
    by (cases "run_statements conn stmts ?s0")
  have inv: "filter is_Info (log s') = map info_record (executed (trace s')) \<and>
             (\<forall>stmt \<in> set (executed (trace s')). strip stmt \<noteq> [])"
    by (rule run_statements_invariant[OF run]) simp_all
  have a: "apply_ddl conn db0 stmts = apply_ddl conn db0 (nonblank stmts)"
    by (simp add: apply_ddl_def run_statements_nonblank)
  have b: "\<forall>stmt \<in> set (executed (trace (snd (apply_ddl conn db0 stmts)))). strip stmt \<noteq> []"
    using inv run by (cases r) (simp_all add: apply_ddl_def executed_append)
  have c: "filter is_Info (log (snd (apply_ddl conn db0 stmts))) =
     map info_record (executed (trace (snd (apply_ddl conn db0 stmts))))"
    using inv run by (cases r) (simp_all add: apply_ddl_def executed_append)
  have d: "\<forall>d. execute_all conn db0 stmts = Inr d \<longrightarrow>
      fst (apply_ddl conn db0 stmts) = Inr () \<and>
      db (snd (apply_ddl conn db0 stmts)) = d \<and>
      executed (trace (snd (apply_ddl conn db0 stmts))) = nonblank stmts"
  proof (intro allI impI)
    fix d assume "execute_all conn db0 stmts = Inr d"
    then have "run_statements conn stmts ?s0 =
      (None, ?s0\<lparr>db := d, log := log ?s0 @ map info_record (nonblank stmts),
               trace := trace ?s0 @ map Execute (nonblank stmts)\<rparr>)"
      by (intro run_statements_succeed) simp
    then show "fst (apply_ddl conn db0 stmts) = Inr () \<and>
      db (snd (apply_ddl conn db0 stmts)) = d \<and>
      executed (trace (snd (apply_ddl conn db0 stmts))) = nonblank stmts"
      by (simp add: apply_ddl_def executed_append executed_map_Execute)
  qed
  from a b c d show ?thesis by blast
qed

theorem apply_ddl_skips_blank_witness:
  "apply_ddl orders_conn [] [''   '', ''CREATE TABLE orders (id INTEGER);'', ''''] =
     apply_ddl orders_conn [] [''CREATE TABLE orders (id INTEGER);''] \<and>
   fst (apply_ddl orders_conn [] [''   '', ''CREATE TABLE orders (id INTEGER);'', '''']) = Inr () \<and>
   db (snd (apply_ddl orders_conn [] [''   '', ''CREATE TABLE orders (id INTEGER);'', ''''])) =
     [''CREATE TABLE orders (id INTEGER);''] \<and>
   executed (trace (snd (apply_ddl orders_conn [] [''   '', ''CREATE TABLE orders (id INTEGER);'', '''']))) =
     [''CREATE TABLE orders (id INTEGER);'']"
proof -
  let ?stmts = "[''   '', ''CREATE TABLE orders (id INTEGER);'', '''']"
  have nb: "nonblank ?stmts = [''CREATE TABLE orders (id INTEGER);'']"
    by (simp add: nonblank_def strip_def isspace_def)
  have ok: "execute_all orders_conn [] ?stmts = Inr [''CREATE TABLE orders (id INTEGER);'']"
    by (simp add: strip_def isspace_def orders_conn_def)
  from apply_ddl_skips_blank [of orders_conn "[]" ?stmts] ok
  have "apply_ddl orders_conn [] ?stmts = apply_ddl orders_conn [] (nonblank ?stmts) \<and>
        fst (apply_ddl orders_conn [] ?stmts) = Inr () \<and>
        db (snd (apply_ddl orders_conn [] ?stmts)) = [''CREATE TABLE orders (id INTEGER);''] \<and>
        executed (trace (snd (apply_ddl orders_conn [] ?stmts))) = nonblank ?stmts"
    by blast
  then show ?thesis unfolding nb .
qed

text \<open>
  Claim C10. On a list that is empty or has only entries of whitespace, \<open>apply_ddl\<close>
  begins and commits its transaction and returns normally: nothing is executed, nothing is
  logged and the database is unchanged.
\<close>

theorem apply_ddl_all_blank:
  assumes "\<forall>stmt \<in> set stmts. \<forall>c \<in> set stmt. isspace c"
  shows "apply_ddl conn db0 stmts = (Inr (), \<lparr>db = db0, log = [], trace = [Begin, Commit]\<rparr>)"
proof -
  from assms have "nonblank stmts = []"
    by (simp add: nonblank_def strip_Nil_iff)
  then have "run_statements conn stmts \<lparr>db = db0, log = [], trace = [Begin]\<rparr> =
             (None, \<lparr>db = db0, log = [], trace = [Begin]\<rparr>)"
    using run_statements_nonblank[of conn stmts "\<lparr>db = db0, log = [], trace = [Begin]\<rparr>"] by simp
  then show ?thesis by (simp add: apply_ddl_def)
qed

theorem apply_ddl_all_blank_witness:
  "apply_ddl closed_conn [''CREATE TABLE t (id INTEGER);''] [] =
     (Inr (), \<lparr>db = [''CREATE TABLE t (id INTEGER);''], log = [], trace = [Begin, Commit]\<rparr>) \<and>
   apply_ddl closed_conn [''CREATE TABLE t (id INTEGER);''] ['''', ''   '', [CHR 0x09, CHR 0x0A]] =
     (Inr (), \<lparr>db = [''CREATE TABLE t (id INTEGER);''], log = [], trace = [Begin, Commit]\<rparr>)"
  using apply_ddl_all_blank [of "[]" closed_conn "[''CREATE TABLE t (id INTEGER);'']"]
        apply_ddl_all_blank [of "['''', ''   '', [CHR 0x09, CHR 0x0A]]" closed_conn "[''CREATE TABLE t (id INTEGER);'']"]
  by (simp add: isspace_def)

end
